theory Spec2Isabelle
  imports Main "HOL-Library.Multiset"
begin

section \<open>Data model\<close>

text \<open>
  Identifiers (MongoDB object ids, Socket.IO socket ids) and room names are strings.
  A room name built by the template literal \<^verbatim>\<open>`user_${id}`\<close> is the prefix
  \<^verbatim>\<open>user_\<close> followed by the text of the id.

  A stored id (\<^verbatim>\<open>_id\<close>, \<open>user\<close>, an entry of \<open>followers\<close> or \<open>following\<close>) is an
  ObjectId, represented by the text it prints as: 24 hexadecimal digits in lower case for
  an id the driver made. A request carries id texts as the client wrote them. Wherever the
  schema asks for an ObjectId, mongoose reads the text as one or refuses it with a cast
  error; two texts may be read as the same ObjectId. This reading belongs to the driver and
  is a parameter of the handlers that use it: \<open>None\<close> is a text that is refused.
\<close>

type_synonym object_id = string
type_synonym user_id = object_id
type_synonym video_id = object_id
type_synonym socket_id = string
type_synonym room = string
type_synonym id_cast = "string \<Rightarrow> object_id option"

text \<open>
  \<^verbatim>\<open>models/Video.js\<close>: the declared paths of the schema and the document id.
  \<open>likes\<close> is a JavaScript number (a double) that the code creates as 0 and only ever
  increments by one, so it is integer-valued; it is represented by that integer, and
  \<open>None\<close> stands for a document whose \<open>likes\<close> is missing
  (\<^verbatim>\<open>undefined\<close>/\<^verbatim>\<open>null\<close>). The two timestamps that the mongoose runtime keeps beside
  the declared paths are not part of the record.
\<close>

record Video =
  video_id :: video_id
  title :: string
  url :: string
  user :: user_id
  likes :: "int option"
  comments :: "(string \<times> string) list"

text \<open>\<^verbatim>\<open>models/User.js\<close>. The two arrays are always present (mongoose creates them empty).\<close>

record User =
  username :: string
  email :: string
  passwordHash :: string
  followers :: "user_id list"
  following :: "user_id list"

text \<open>
  An event handed to \<^verbatim>\<open>io.to(room).emit(name, payload)\<close>: the target room, the event
  name and the video document it carries.
\<close>

record FeedEvent =
  target :: room
  kind :: string
  payload :: Video

text \<open>What a \<^verbatim>\<open>catch (err)\<close> block receives.\<close>

datatype js_error =
  NullDeref      \<comment> \<open>TypeError: a property read or written on \<^verbatim>\<open>null\<close>\<close>
| EmitFailed FeedEvent  \<comment> \<open>an exception thrown by \<^verbatim>\<open>emit\<close> for this event\<close>
| CastError string      \<comment> \<open>mongoose refuses this text where a query or an update needs an ObjectId\<close>
| ValidationError string  \<comment> \<open>\<^verbatim>\<open>save()\<close> refuses a document whose path was set to this text\<close>

text \<open>Lines written by \<^verbatim>\<open>console.log\<close> and \<^verbatim>\<open>console.error\<close>.\<close>

datatype log_line =
  Info string
| Failure string js_error

text \<open>An HTTP answer: the status set by \<^verbatim>\<open>res.status\<close> (200 when unset) and the JSON body.\<close>

datatype body =
  VideoBody Video
| OkBody                 \<comment> \<open>\<^verbatim>\<open>{ ok: true }\<close>\<close>
| ErrorText string       \<comment> \<open>\<^verbatim>\<open>{ error: '...' }\<close> with a literal text\<close>
| ErrorOf js_error       \<comment> \<open>\<^verbatim>\<open>{ error: err.message }\<close>\<close>

record response =
  status :: nat
  json :: body

text \<open>
  One server instance: the two collections of the data store, the rooms of every connected
  socket (\<open>None\<close>: no such socket), the events emitted so far and the console.
  The video collection is a list in insertion order; users are looked up by id only.
  Calls to the data store are modelled as succeeding.
\<close>

record server =
  videos :: "Video list"
  users :: "user_id \<rightharpoonup> User"
  sockets :: "socket_id \<rightharpoonup> room set"
  sent :: "FeedEvent list"
  console :: "log_line list"

text \<open>
  The Socket.IO server object as the controllers see it: \<open>io ev\<close> is \<open>True\<close> when
  \<^verbatim>\<open>io.to(target ev).emit(kind ev, payload ev)\<close> throws.
\<close>

type_synonym io = "FeedEvent \<Rightarrow> bool"

text \<open>
  \<^verbatim>\<open>process.env\<close>. The text of a variable is taken to be an integer literal and is
  represented by the integer that \<^verbatim>\<open>Number\<close> reads from it; \<open>None\<close> is a variable that
  is unset or empty (both falsy for \<^verbatim>\<open>||\<close>).
\<close>

type_synonym env = "string \<rightharpoonup> int"

section \<open>Emitting a list of events\<close>

text \<open>
  \<^verbatim>\<open>xs.forEach(x => io.to(r).emit(n, x))\<close>: the events are emitted in order; the first
  \<^verbatim>\<open>emit\<close> that throws ends the loop and the exception leaves \<^verbatim>\<open>forEach\<close>.
  The result is the exception, if any, and the events that were emitted.
\<close>

fun forEach_emit :: "io \<Rightarrow> FeedEvent list \<Rightarrow> js_error option \<times> FeedEvent list" where
  "forEach_emit io [] = (None, [])"
| "forEach_emit io (e # es) =
     (if io e then (Some (EmitFailed e), [])
      else (case forEach_emit io es of (r, out) \<Rightarrow> (r, e # out)))"

section \<open>trendingJob.js\<close>

definition like_count :: "Video \<Rightarrow> int" where
  "like_count v = (case likes v of None \<Rightarrow> 0 | Some n \<Rightarrow> n)"

text \<open>\<^verbatim>\<open>Number(process.env.TREND_THRESHOLD || 50)\<close>\<close>

definition threshold :: "env \<Rightarrow> int" where
  "threshold e = (case e ''TREND_THRESHOLD'' of None \<Rightarrow> 50 | Some t \<Rightarrow> t)"

text \<open>\<^verbatim>\<open>{ likes: { $gte: t } }\<close>: a document without \<open>likes\<close> does not match.\<close>

definition gte_likes :: "int \<Rightarrow> Video \<Rightarrow> bool" where
  "gte_likes t v = (case likes v of None \<Rightarrow> False | Some n \<Rightarrow> t \<le> n)"

text \<open>
  \<^verbatim>\<open>Video.find({ likes: { $gte: threshold } }).sort({ likes: -1 }).limit(10)\<close>.
  The sort is by descending \<open>likes\<close>; documents with equal \<open>likes\<close> keep their collection
  order (the data store leaves their order open).
\<close>

definition trending_query :: "env \<Rightarrow> Video list \<Rightarrow> Video list" where
  "trending_query e vs =
     take 10 (sort_key (\<lambda>v. - like_count v) (filter (gte_likes (threshold e)) vs))"

definition trending_event :: "Video \<Rightarrow> FeedEvent" where
  "trending_event v = \<lparr>target = ''trending'', kind = ''feed-update-trending'', payload = v\<rparr>"

text \<open>
  The rest of the \<^verbatim>\<open>try\<close> block once the query has returned: the \<^verbatim>\<open>forEach\<close> over the
  result, and the \<^verbatim>\<open>catch\<close> that writes to the console.
\<close>

definition publish_trending :: "io \<Rightarrow> Video list \<Rightarrow> server \<Rightarrow> server" where
  "publish_trending io trending s =
     (case forEach_emit io (map trending_event trending) of
        (None, out) \<Rightarrow> s\<lparr>sent := sent s @ out\<rparr>
      | (Some err, out) \<Rightarrow>
          s\<lparr>sent := sent s @ out, console := console s @ [Failure ''Trending job error'' err]\<rparr>)"

definition processTrending :: "io \<Rightarrow> env \<Rightarrow> server \<Rightarrow> server" where
  "processTrending io e s = publish_trending io (trending_query e (videos s)) s"

text \<open>The events a step added to the ones already sent.\<close>

definition published :: "server \<Rightarrow> server \<Rightarrow> FeedEvent list" where
  "published s s' = drop (length (sent s)) (sent s')"

section \<open>server.js: the cron schedule\<close>

text \<open>
  \<^verbatim>\<open>cron.schedule("*/2 * * * *", async () => { ... await processTrending(io) })\<close>.
  The expression is a literal of the source; its minute field \<^verbatim>\<open>*/2\<close> matches the even
  minutes of every hour.
\<close>

definition cron_expression :: string where
  "cron_expression = ''*/2 * * * *''"

definition cron_due :: "nat \<Rightarrow> bool" where
  "cron_due minute = (minute mod 2 = 0)"

text \<open>
  The job is an \<^verbatim>\<open>async\<close> function: a run starts when the schedule fires, sends its
  query and is suspended at \<^verbatim>\<open>await\<close> until the data store answers; other callbacks run
  in between. \<open>awaiting\<close> holds, for each suspended run, the answer it will receive
  (answers arrive in the order the queries were sent); \<open>store_queries\<close> counts the
  queries sent.
\<close>

record cron =
  srv :: server
  awaiting :: "Video list list"
  store_queries :: nat

text \<open>The scheduled callback up to its first suspension. It tests no state before it starts.\<close>

definition cron_tick :: "env \<Rightarrow> cron \<Rightarrow> cron" where
  "cron_tick e c =
     c\<lparr>srv := (srv c)\<lparr>console := console (srv c) @ [Info ''Running trending job...'']\<rparr>,
       awaiting := awaiting c @ [trending_query e (videos (srv c))],
       store_queries := Suc (store_queries c)\<rparr>"

text \<open>The data store answers the oldest suspended run, which then runs to its end.\<close>

definition query_returns :: "io \<Rightarrow> cron \<Rightarrow> cron" where
  "query_returns io c =
     (case awaiting c of
        [] \<Rightarrow> c
      | r # rs \<Rightarrow> c\<lparr>srv := publish_trending io r (srv c), awaiting := rs\<rparr>)"

datatype cron_event = Trigger | QueryReturns

fun cron_step :: "io \<Rightarrow> env \<Rightarrow> cron \<Rightarrow> cron_event \<Rightarrow> cron" where
  "cron_step io e c Trigger = cron_tick e c"
| "cron_step io e c QueryReturns = query_returns io c"

definition cron_run :: "io \<Rightarrow> env \<Rightarrow> cron \<Rightarrow> cron_event list \<Rightarrow> cron" where
  "cron_run io e c evs = foldl (cron_step io e) c evs"

definition idle :: "server \<Rightarrow> cron" where
  "idle s = \<lparr>srv = s, awaiting = [], store_queries = 0\<rparr>"

section \<open>socket.js\<close>

text \<open>\<^verbatim>\<open>socket.join(room)\<close> adds the room to the rooms of the socket.\<close>

definition socket_join :: "room \<Rightarrow> room set \<Rightarrow> room set" where
  "socket_join r rs = insert r rs"

text \<open>
  \<^verbatim>\<open>io.on("connection", ...)\<close>: the handler logs. Socket.IO has put the new socket in the
  room named by its own id.
\<close>

definition on_connection :: "socket_id \<Rightarrow> server \<Rightarrow> server" where
  "on_connection sid s =
     s\<lparr>sockets := (sockets s)(sid \<mapsto> {sid}),
       console := console s @ [Info (''Socket connected: '' @ sid)]\<rparr>"

text \<open>
  \<^verbatim>\<open>socket.on("register", (userId) => ...)\<close>: two joins and a log line. The handler
  exists on connected sockets only. \<open>userId\<close> is the text the client sent; nothing reads it
  as an ObjectId.
\<close>

definition on_register :: "socket_id \<Rightarrow> string \<Rightarrow> server \<Rightarrow> server" where
  "on_register sid userId s =
     (case sockets s sid of
        None \<Rightarrow> s
      | Some rs \<Rightarrow>
          s\<lparr>sockets := (sockets s)(sid \<mapsto> socket_join ''trending'' (socket_join (''user_'' @ userId) rs)),
            console := console s @
              [Info (''Socket '' @ sid @ '' joined user_'' @ userId @ '' and trending'')]\<rparr>)"

text \<open>
  Modelled from the spec: the removal of a closing socket from its rooms. The handler
  \<^verbatim>\<open>socket.on("disconnect", ...)\<close> of the source only logs; the rooms are left and the
  socket's record is dropped by the Socket.IO runtime, which is not part of this repository, before the
  handler runs. The spec words it as: onDisconnect removes the connection from all groups
  and discards its record.
\<close>

definition runtime_close :: "socket_id \<Rightarrow> server \<Rightarrow> server" where
  "runtime_close sid s = s\<lparr>sockets := (sockets s)(sid := None)\<rparr>"

definition disconnect_handler :: "socket_id \<Rightarrow> server \<Rightarrow> server" where
  "disconnect_handler sid s = s\<lparr>console := console s @ [Info (''Socket disconnected: '' @ sid)]\<rparr>"

definition on_disconnect :: "socket_id \<Rightarrow> server \<Rightarrow> server" where
  "on_disconnect sid s = disconnect_handler sid (runtime_close sid s)"

text \<open>Room membership as the dispatcher reads it.\<close>

definition in_room :: "server \<Rightarrow> socket_id \<Rightarrow> room \<Rightarrow> bool" where
  "in_room s sid r = (case sockets s sid of None \<Rightarrow> False | Some rs \<Rightarrow> r \<in> rs)"

definition membersOf :: "server \<Rightarrow> room \<Rightarrow> socket_id set" where
  "membersOf s r = {sid. in_room s sid r}"

text \<open>A personal room is one named \<^verbatim>\<open>user_...\<close>.\<close>

definition personal :: "room \<Rightarrow> bool" where
  "personal r = (take 5 r = ''user_'')"

section \<open>controllers/userController.js\<close>

text \<open>The body of a follow request: two id texts.\<close>

record follow_request =
  userId :: string
  targetId :: string

text \<open>\<^verbatim>\<open>$addToSet\<close>: the value is appended unless the array already holds it.\<close>

definition addToSet :: "'a \<Rightarrow> 'a list \<Rightarrow> 'a list" where
  "addToSet x xs = (if x \<in> set xs then xs else xs @ [x])"

text \<open>\<^verbatim>\<open>User.findByIdAndUpdate(id, update)\<close>: no document with that id, no change.\<close>

definition findByIdAndUpdate :: "user_id \<Rightarrow> (User \<Rightarrow> User) \<Rightarrow> (user_id \<rightharpoonup> User) \<Rightarrow> (user_id \<rightharpoonup> User)" where
  "findByIdAndUpdate i f us = (case us i of None \<Rightarrow> us | Some u \<Rightarrow> us(i \<mapsto> f u))"

text \<open>
  \<open>follow\<close>. The guard \<^verbatim>\<open>userId === targetId\<close> compares the two texts of the request.
  The first update needs both texts as ObjectIds (\<open>targetId\<close> for its filter, \<open>userId\<close> for
  the value it adds), so a text that is refused makes it throw before anything is written,
  and the \<^verbatim>\<open>catch\<close> answers 400.
\<close>

definition follow :: "id_cast \<Rightarrow> follow_request \<Rightarrow> server \<Rightarrow> server \<times> response" where
  "follow cast r s =
     (if userId r = targetId r then (s, \<lparr>status = 400, json = ErrorText ''Invalid''\<rparr>)
      else
        (case cast (targetId r) of
           None \<Rightarrow> (s, \<lparr>status = 400, json = ErrorOf (CastError (targetId r))\<rparr>)
         | Some t \<Rightarrow>
             (case cast (userId r) of
                None \<Rightarrow> (s, \<lparr>status = 400, json = ErrorOf (CastError (userId r))\<rparr>)
              | Some u \<Rightarrow>
                  let us1 = findByIdAndUpdate t
                              (\<lambda>d. d\<lparr>followers := addToSet u (followers d)\<rparr>) (users s);
                      us2 = findByIdAndUpdate u
                              (\<lambda>d. d\<lparr>following := addToSet t (following d)\<rparr>) us1
                  in (s\<lparr>users := us2\<rparr>, \<lparr>status = 200, json = OkBody\<rparr>))))"

section \<open>controllers/videoController.js\<close>

text \<open>
  The upload request after multer: the two body fields and the stored file's name
  (\<open>None\<close>: no file). \<open>req_userId\<close> is an id text.
\<close>

record upload_request =
  req_title :: string
  req_userId :: string
  req_file :: "string option"

definition following_event :: "Video \<Rightarrow> user_id \<Rightarrow> FeedEvent" where
  "following_event v f = \<lparr>target = ''user_'' @ f, kind = ''feed-update-following'', payload = v\<rparr>"

text \<open>
  \<^verbatim>\<open>new Video({ title, url, user })\<close>: \<open>likes\<close> takes the schema's default, the id is the
  fresh one the driver generates (a parameter here).
\<close>

definition new_Video :: "video_id \<Rightarrow> string \<Rightarrow> string \<Rightarrow> user_id \<Rightarrow> Video" where
  "new_Video i t u uid =
     \<lparr>video_id = i, title = t, url = u, user = uid, likes = Some 0, comments = []\<rparr>"

text \<open>
  \<open>uploadVideo\<close>. The path \<open>user\<close> of the schema is an ObjectId: when the text of
  \<open>userId\<close> is refused, \<^verbatim>\<open>video.save()\<close> fails validation and nothing is stored.
  \<^verbatim>\<open>User.findById\<close> gives \<^verbatim>\<open>null\<close> for an id of no stored user, and reading
  \<^verbatim>\<open>user.followers\<close> then throws; an array is truthy, so \<^verbatim>\<open>user.followers || []\<close> is the
  array. Everything from the first line on is inside one \<^verbatim>\<open>try\<close>, whose \<^verbatim>\<open>catch\<close> answers
  500 with the message of the error.
\<close>

definition uploadVideo :: "id_cast \<Rightarrow> io \<Rightarrow> video_id \<Rightarrow> upload_request \<Rightarrow> server \<Rightarrow> server \<times> response" where
  "uploadVideo cast io fresh req s =
     (case req_file req of
        None \<Rightarrow> (s, \<lparr>status = 400, json = ErrorText ''No file''\<rparr>)
      | Some filename \<Rightarrow>
          (case cast (req_userId req) of
             None \<Rightarrow> (s, \<lparr>status = 500, json = ErrorOf (ValidationError (req_userId req))\<rparr>)
           | Some owner \<Rightarrow>
               let video = new_Video fresh (req_title req) (''/uploads/'' @ filename) owner;
                   s1 = s\<lparr>videos := videos s @ [video]\<rparr>
               in (case users s1 owner of
                     None \<Rightarrow> (s1, \<lparr>status = 500, json = ErrorOf NullDeref\<rparr>)
                   | Some u \<Rightarrow>
                       (case forEach_emit io (map (following_event video) (followers u)) of
                          (None, out) \<Rightarrow>
                            (s1\<lparr>sent := sent s1 @ out\<rparr>, \<lparr>status = 200, json = VideoBody video\<rparr>)
                        | (Some err, out) \<Rightarrow>
                            (s1\<lparr>sent := sent s1 @ out\<rparr>, \<lparr>status = 500, json = ErrorOf err\<rparr>)))))"

text \<open>\<^verbatim>\<open>Video.findById(id)\<close>, once the id text has been read.\<close>

definition findById :: "video_id \<Rightarrow> Video list \<Rightarrow> Video option" where
  "findById i vs = find (\<lambda>v. video_id v = i) vs"

text \<open>\<^verbatim>\<open>video.save()\<close> of a loaded document: the stored document with its id is replaced.\<close>

fun save :: "Video \<Rightarrow> Video list \<Rightarrow> Video list" where
  "save v [] = []"
| "save v (w # ws) = (if video_id w = video_id v then v # ws else w # save v ws)"

text \<open>\<^verbatim>\<open>video.likes || 0\<close>: a missing value and 0 are falsy.\<close>

definition likes_or_0 :: "Video \<Rightarrow> int" where
  "likes_or_0 v = (case likes v of None \<Rightarrow> 0 | Some n \<Rightarrow> if n = 0 then 0 else n)"

text \<open>
  \<^verbatim>\<open>n + 1\<close> on an integer-valued double. From \<open>-2^53\<close> up to \<open>2^53 - 1\<close> the sum is
  exact. Beyond, doubles are 2 apart up to magnitude \<open>2^54\<close> and further apart above: the
  exact sum lies halfway between \<open>n\<close> and \<open>n + 2\<close> in the first case and is rounded to the
  one of the two whose significand is even, and it is rounded back to \<open>n\<close> in the second.
\<close>

definition js_add1 :: "int \<Rightarrow> int" where
  "js_add1 n =
     (if - (2 ^ 53) \<le> n \<and> n < 2 ^ 53 then n + 1
      else if \<bar>n\<bar> < 2 ^ 54 \<and> odd (n div 2) then n + 2
      else n)"

text \<open>
  \<open>likeVideo\<close>. A refused id text makes \<^verbatim>\<open>findById\<close> throw; for an id of no stored
  video \<^verbatim>\<open>findById\<close> gives \<^verbatim>\<open>null\<close> and the assignment throws. The \<^verbatim>\<open>catch\<close> answers 400.
\<close>

definition likeVideo :: "id_cast \<Rightarrow> string \<Rightarrow> server \<Rightarrow> server \<times> response" where
  "likeVideo cast i s =
     (case cast i of
        None \<Rightarrow> (s, \<lparr>status = 400, json = ErrorOf (CastError i)\<rparr>)
      | Some oid \<Rightarrow>
          (case findById oid (videos s) of
             None \<Rightarrow> (s, \<lparr>status = 400, json = ErrorOf NullDeref\<rparr>)
           | Some video \<Rightarrow>
               let video' = video\<lparr>likes := Some (js_add1 (likes_or_0 video))\<rparr>
               in (s\<lparr>videos := save video' (videos s)\<rparr>,
                   \<lparr>status = 200, json = VideoBody video'\<rparr>)))"

section \<open>Example data\<close>

definition clip :: "video_id \<Rightarrow> int \<Rightarrow> Video" where
  "clip i n = \<lparr>video_id = i, title = ''clip'', url = ''/uploads/'' @ i, user = ''u0'',
              likes = Some n, comments = []\<rparr>"

definition member :: "User" where
  "member = \<lparr>username = ''m'', email = ''m@example.org'', passwordHash = ''h'',
             followers = [], following = []\<rparr>"

definition empty_server :: server where
  "empty_server = \<lparr>videos = [], users = Map.empty, sockets = Map.empty, sent = [], console = []\<rparr>"

definition four_clips :: server where
  "four_clips = empty_server\<lparr>videos := [clip ''a'' 80, clip ''b'' 60, clip ''c'' 40, clip ''d'' 90]\<rparr>"

definition relay_up :: io where
  "relay_up = (\<lambda>_. False)"

text \<open>An \<^verbatim>\<open>emit\<close> that throws for the events carrying the video with the given id.\<close>

definition fails_on :: "video_id \<Rightarrow> io" where
  "fails_on i = (\<lambda>ev. video_id (payload ev) = i)"

definition twelve_clips :: server where
  "twelve_clips = empty_server\<lparr>videos :=
     [clip ''01'' 101, clip ''02'' 102, clip ''03'' 103, clip ''04'' 104,
      clip ''05'' 105, clip ''06'' 106, clip ''07'' 107, clip ''08'' 108,
      clip ''09'' 109, clip ''10'' 110, clip ''11'' 111, clip ''12'' 112]\<rparr>"

text \<open>An environment that sets the threshold, and two more variables named after the other two
  parameters of the configuration surface.\<close>

definition tuned :: env where
  "tuned = [''TREND_THRESHOLD'' \<mapsto> 70, ''topN'' \<mapsto> 12, ''interval'' \<mapsto> 5]"

text \<open>
  The reading of id texts in the examples: a text of 24 hexadecimal digits, in either
  case, is the ObjectId with these digits, printed in lower case. The examples rely on it
  for such texts and for the empty text only.
\<close>

definition hex_digit :: "char \<Rightarrow> bool" where
  "hex_digit c = (c \<in> set ''0123456789abcdefABCDEF'')"

definition lower_hex :: "char \<Rightarrow> char" where
  "lower_hex c =
     (case map_of (zip ''ABCDEF'' ''abcdef'') c of None \<Rightarrow> c | Some d \<Rightarrow> d)"

definition hex_id :: id_cast where
  "hex_id t = (if length t = 24 \<and> list_all hex_digit t then Some (map lower_hex t) else None)"

definition alice_id :: object_id where
  "alice_id = ''aaaaaaaaaaaaaaaaaaaaaaa1''"

definition bob_id :: object_id where
  "bob_id = ''bbbbbbbbbbbbbbbbbbbbbbb2''"

definition carol_id :: object_id where
  "carol_id = ''ccccccccccccccccccccccc3''"

text \<open>A well-formed id of no stored user.\<close>

definition ghost_id :: object_id where
  "ghost_id = ''0123456789abcdef01234567''"

definition alice :: User where
  "alice = member\<lparr>username := ''alice'', followers := [bob_id, carol_id]\<rparr>"

definition plain_id :: video_id where
  "plain_id = ''5f0000000000000000000001''"

definition unliked_id :: video_id where
  "unliked_id = ''5f0000000000000000000002''"

definition huge_id :: video_id where
  "huge_id = ''5f0000000000000000000003''"

text \<open>
  Three users, and three videos: one with 80 likes, one whose \<open>likes\<close> is missing and one
  with \<open>2^53\<close> likes.
\<close>

definition small_site :: server where
  "small_site = empty_server\<lparr>users := [alice_id \<mapsto> alice, bob_id \<mapsto> member, carol_id \<mapsto> member],
                              videos := [clip plain_id 80, (clip unliked_id 7)\<lparr>likes := None\<rparr>,
                                         clip huge_id 9007199254740992]\<rparr>"

definition upload_by :: "string \<Rightarrow> upload_request" where
  "upload_by uid = \<lparr>req_title = ''hello'', req_userId = uid, req_file = Some ''f1''\<rparr>"

text \<open>A follow request that spells the id of one user in two ways.\<close>

definition self_follow :: follow_request where
  "self_follow = \<lparr>userId = ''BBBBBBBBBBBBBBBBBBBBBBB2'', targetId = ''bbbbbbbbbbbbbbbbbbbbbbb2''\<rparr>"

section \<open>Facts about the emit loop\<close>

lemma forEach_emit_ok:
  "(\<And>e. e \<in> set es \<Longrightarrow> \<not> io e) \<Longrightarrow> forEach_emit io es = (None, es)"
  by (induction es) auto

lemma forEach_emit_takeWhile:
  "snd (forEach_emit io es) = takeWhile (\<lambda>e. \<not> io e) es"
  by (induction es) (auto split: prod.splits)

lemma forEach_emit_error:
  "fst (forEach_emit io es) =
     (case dropWhile (\<lambda>e. \<not> io e) es of [] \<Rightarrow> None | e # _ \<Rightarrow> Some (EmitFailed e))"
  by (induction es) (auto split: prod.splits)

section \<open>Facts about the trending query\<close>

lemma trending_query_desc:
  "sorted_wrt (\<lambda>a b. like_count b \<le> like_count a) (trending_query e vs)"
proof -
  let ?f = "\<lambda>v. - like_count v"
  let ?xs = "sort_key ?f (filter (gte_likes (threshold e)) vs)"
  have "sorted (map ?f (take 10 ?xs))"
    by (simp add: take_map [symmetric] del: sorted_wrt_take) (metis sorted_sort_key sorted_wrt_take)
  then show ?thesis
    by (simp add: trending_query_def sorted_wrt_map)
qed

lemma trending_query_length:
  "length (trending_query e vs) = min 10 (length (filter (gte_likes (threshold e)) vs))"
  by (simp add: trending_query_def min.commute)

lemma trending_query_mset:
  "mset (trending_query e vs) \<subseteq># mset (filter (gte_likes (threshold e)) vs)"
proof -
  let ?xs = "sort_key (\<lambda>v. - like_count v) (filter (gte_likes (threshold e)) vs)"
  have "mset (take 10 ?xs) \<subseteq># mset ?xs"
    by (metis append_take_drop_id mset_append mset_subset_eq_add_left)
  then show ?thesis by (simp add: trending_query_def)
qed

lemma trending_query_top:
  assumes "v \<in> set vs" "gte_likes (threshold e) v" "v \<notin> set (trending_query e vs)"
    and "w \<in> set (trending_query e vs)"
  shows "like_count v \<le> like_count w"
proof -
  let ?f = "\<lambda>v. - like_count v"
  let ?xs = "sort_key ?f (filter (gte_likes (threshold e)) vs)"
  have "v \<in> set ?xs" using assms(1,2) by simp
  then have "v \<in> set (take 10 ?xs) \<union> set (drop 10 ?xs)"
    by (metis append_take_drop_id set_append)
  with assms(3) have v: "v \<in> set (drop 10 ?xs)" by (simp add: trending_query_def)
  have w: "w \<in> set (take 10 ?xs)" using assms(4) by (simp add: trending_query_def)
  have "sorted (map ?f (take 10 ?xs @ drop 10 ?xs))" by simp
  then have "\<forall>a \<in> set (take 10 ?xs). \<forall>b \<in> set (drop 10 ?xs). ?f a \<le> ?f b"
    unfolding map_append sorted_append by auto
  with v w show ?thesis by auto
qed

lemma published_processTrending:
  assumes "\<And>v. \<not> io (trending_event v)"
  shows "published s (processTrending io e s) = map trending_event (trending_query e (videos s))"
proof -
  have "forEach_emit io (map trending_event (trending_query e (videos s)))
        = (None, map trending_event (trending_query e (videos s)))"
    by (rule forEach_emit_ok) (use assms in auto)
  then show ?thesis
    by (simp add: processTrending_def publish_trending_def published_def)
qed


lemma trending_query_example:
  assumes "map likes vs = [Some 80, Some 60, Some 40, Some 90]" and "threshold e = 50"
  shows "map like_count (trending_query e vs) = [90, 80, 60]"
proof -
  from assms(1) obtain a b c d where vs: "vs = [a, b, c, d]"
    and l: "likes a = Some 80" "likes b = Some 60" "likes c = Some 40" "likes d = Some 90"
    by (auto simp: map_eq_Cons_conv)
  show ?thesis
    by (simp add: vs l assms(2) trending_query_def gte_likes_def like_count_def)
qed

section \<open>The trending job publishes the top items in descending order\<close>

text \<open>
  Claim C1. When no \<^verbatim>\<open>emit\<close> to the \<open>trending\<close> room throws, a run of
  \<open>processTrending\<close> adds to the sent events exactly one \<open>feed-update-trending\<close>
  event per selected video, all addressed to the room \<open>trending\<close>: the selected videos are
  stored videos with \<open>likes\<close> at or above the threshold (none taken more often than it is
  stored), there are as many as qualify but at most 10, they are in descending order of
  \<open>likes\<close>, and every qualifying video left out has no more \<open>likes\<close> than any selected one.
  For a store whose videos have \<open>likes\<close> 80, 60, 40, 90 and threshold 50, the events carry
  the counts 90, 80, 60 in this order.
\<close>

theorem processTrending_publishes:
  assumes "\<forall>v. \<not> io (trending_event v)"
  shows "let evs = published s (processTrending io e s);
             qualifying = filter (gte_likes (threshold e)) (videos s)
         in (\<forall>ev \<in> set evs. target ev = ''trending'' \<and> kind ev = ''feed-update-trending'') \<and>
            mset (map payload evs) \<subseteq># mset qualifying \<and>
            length evs = min 10 (length qualifying) \<and>
            sorted_wrt (\<lambda>a b. like_count (payload b) \<le> like_count (payload a)) evs \<and>
            (\<forall>v \<in> set qualifying. v \<notin> payload ` set evs \<longrightarrow>
               (\<forall>ev \<in> set evs. like_count v \<le> like_count (payload ev))) \<and>
            (map likes (videos s) = [Some 80, Some 60, Some 40, Some 90] \<and> threshold e = 50 \<longrightarrow>
               map (like_count \<circ> payload) evs = [90, 80, 60])"
proof -
  let ?q = "trending_query e (videos s)"
  have evs: "published s (processTrending io e s) = map trending_event ?q"
    using assms by (simp add: published_processTrending)
  have pl: "map payload (map trending_event ?q) = ?q"
    by (simp add: trending_event_def comp_def)
  have 1: "\<forall>ev \<in> set (map trending_event ?q). target ev = ''trending'' \<and> kind ev = ''feed-update-trending''"
    by (auto simp: trending_event_def)
  have 2: "mset (map payload (map trending_event ?q)) \<subseteq># mset (filter (gte_likes (threshold e)) (videos s))"
    unfolding pl by (rule trending_query_mset)
  have 3: "length (map trending_event ?q) = min 10 (length (filter (gte_likes (threshold e)) (videos s)))"
    by (simp add: trending_query_length)
  have 4: "sorted_wrt (\<lambda>a b. like_count (payload b) \<le> like_count (payload a)) (map trending_event ?q)"
    using trending_query_desc [of e "videos s"]
    by (simp add: sorted_wrt_map trending_event_def)
  have 5: "\<forall>v \<in> set (filter (gte_likes (threshold e)) (videos s)). v \<notin> payload ` set (map trending_event ?q) \<longrightarrow>
               (\<forall>ev \<in> set (map trending_event ?q). like_count v \<le> like_count (payload ev))"
  proof (intro ballI impI)
    fix v ev
    assume v: "v \<in> set (filter (gte_likes (threshold e)) (videos s))"
      and n: "v \<notin> payload ` set (map trending_event ?q)"
      and ev: "ev \<in> set (map trending_event ?q)"
    have "payload ` set (map trending_event ?q) = set ?q"
      using pl by (metis set_map)
    with n ev have "v \<notin> set ?q" "payload ev \<in> set ?q" by auto
    with v show "like_count v \<le> like_count (payload ev)"
      using trending_query_top [of v "videos s" e "payload ev"] by simp
  qed
  have 6: "map likes (videos s) = [Some 80, Some 60, Some 40, Some 90] \<and> threshold e = 50 \<longrightarrow>
               map (like_count \<circ> payload) (map trending_event ?q) = [90, 80, 60]"
    using trending_query_example [of "videos s" e] pl
    by (metis map_map)
  show ?thesis
    unfolding Let_def evs using 1 2 3 4 5 6 by blast
qed

theorem processTrending_publishes_witness:
  "(\<forall>v. \<not> relay_up (trending_event v)) \<and>
   map (like_count \<circ> payload)
     (published four_clips (processTrending relay_up [''TREND_THRESHOLD'' \<mapsto> 50] four_clips)) = [90, 80, 60] \<and>
   length (published four_clips (processTrending relay_up [''TREND_THRESHOLD'' \<mapsto> 50] four_clips)) = 3"
proof -
  have h: "\<forall>v. \<not> relay_up (trending_event v)" by (simp add: relay_up_def)
  have v: "map likes (videos four_clips) = [Some 80, Some 60, Some 40, Some 90]"
    by (simp add: four_clips_def empty_server_def clip_def)
  have t: "threshold [''TREND_THRESHOLD'' \<mapsto> 50] = 50" by (simp add: threshold_def)
  have "map (like_count \<circ> payload)
     (published four_clips (processTrending relay_up [''TREND_THRESHOLD'' \<mapsto> 50] four_clips)) = [90, 80, 60]"
    using processTrending_publishes [OF h, of four_clips "[''TREND_THRESHOLD'' \<mapsto> 50]"] v t
    unfolding Let_def by blast
  moreover from this have "length (published four_clips (processTrending relay_up [''TREND_THRESHOLD'' \<mapsto> 50] four_clips)) = 3"
    by (metis length_map length_Cons list.size(3) numeral_3_eq_3)
  ultimately show ?thesis using h by blast
qed

section \<open>A failing publish ends the run\<close>

lemma processTrending_sent:
  "sent (processTrending io e s) =
     sent s @ takeWhile (\<lambda>ev. \<not> io ev) (map trending_event (trending_query e (videos s)))"
  using forEach_emit_takeWhile [of io "map trending_event (trending_query e (videos s))"]
  by (auto simp: processTrending_def publish_trending_def split: prod.splits option.splits)

lemma processTrending_console:
  "console (processTrending io e s) =
     (case dropWhile (\<lambda>ev. \<not> io ev) (map trending_event (trending_query e (videos s))) of
        [] \<Rightarrow> console s
      | ev # _ \<Rightarrow> console s @ [Failure ''Trending job error'' (EmitFailed ev)])"
proof -
  let ?q = "map trending_event (trending_query e (videos s))"
  obtain r out where fe: "forEach_emit io ?q = (r, out)"
    by (cases "forEach_emit io ?q")
  have r: "r = (case dropWhile (\<lambda>ev. \<not> io ev) ?q of [] \<Rightarrow> None | ev # _ \<Rightarrow> Some (EmitFailed ev))"
    using forEach_emit_error [of io ?q] fe by simp
  show ?thesis
  proof (cases "dropWhile (\<lambda>ev. \<not> io ev) ?q")
    case Nil
    from r have "r = None" unfolding Nil by simp
    with fe have "console (processTrending io e s) = console s"
      by (simp add: processTrending_def publish_trending_def)
    then show ?thesis unfolding Nil by simp
  next
    case (Cons ev rest)
    from r have "r = Some (EmitFailed ev)" unfolding Cons by simp
    with fe have "console (processTrending io e s) =
        console s @ [Failure ''Trending job error'' (EmitFailed ev)]"
      by (simp add: processTrending_def publish_trending_def)
    then show ?thesis unfolding Cons by simp
  qed
qed

lemma processTrending_frame:
  "videos (processTrending io e s) = videos s \<and> users (processTrending io e s) = users s \<and>
   sockets (processTrending io e s) = sockets s"
  by (auto simp: processTrending_def publish_trending_def split: prod.splits option.splits)

lemma four_clips_trending: "trending_query Map.empty (videos four_clips) = [clip ''d'' 90, clip ''a'' 80, clip ''b'' 60]"
  by (simp add: trending_query_def four_clips_def empty_server_def clip_def threshold_def gte_likes_def like_count_def)

text \<open>
  Claim C7, as the code has it. One \<^verbatim>\<open>try\<close>/\<^verbatim>\<open>catch\<close> encloses the whole loop of
  \<open>processTrending\<close>, so the publishes of a run are not independent: the events of the
  items before the first one whose \<^verbatim>\<open>emit\<close> throws are published, that item's event and
  those of all later items are not, the exception is written to the console once, and the
  job returns without touching anything else.
\<close>

theorem publish_failure_ends_run:
  "let q = map trending_event (trending_query e (videos s)); s' = processTrending io e s
   in published s s' = takeWhile (\<lambda>ev. \<not> io ev) q \<and>
      console s' = (case dropWhile (\<lambda>ev. \<not> io ev) q of
                      [] \<Rightarrow> console s
                    | ev # _ \<Rightarrow> console s @ [Failure ''Trending job error'' (EmitFailed ev)]) \<and>
      videos s' = videos s \<and> users s' = users s \<and> sockets s' = sockets s"
  unfolding Let_def published_def
  by (simp add: processTrending_sent processTrending_console processTrending_frame)

theorem publish_failure_ends_run_witness:
  "published four_clips (processTrending (fails_on ''a'') Map.empty four_clips) = [trending_event (clip ''d'' 90)] \<and>
   console (processTrending (fails_on ''a'') Map.empty four_clips) =
     [Failure ''Trending job error'' (EmitFailed (trending_event (clip ''a'' 80)))]"
  using publish_failure_ends_run [of Map.empty four_clips "fails_on ''a''"]
  unfolding Let_def four_clips_trending
  by (simp add: fails_on_def trending_event_def clip_def four_clips_def empty_server_def)

text \<open>
  Claim C7 as stated fails: in the store with \<open>likes\<close> 80, 60, 40, 90, when the publish of
  the first item (90) throws, the item with 80 is in the run's result and its own publish
  would not throw, yet its event is never sent.
\<close>

theorem publish_failure_counterexample:
  "clip ''a'' 80 \<in> set (trending_query Map.empty (videos four_clips)) \<and>
   \<not> fails_on ''d'' (trending_event (clip ''a'' 80)) \<and>
   trending_event (clip ''a'' 80) \<notin> set (sent (processTrending (fails_on ''d'') Map.empty four_clips))"
  unfolding processTrending_sent four_clips_trending
  by (simp add: fails_on_def trending_event_def clip_def four_clips_def empty_server_def)

section \<open>What the environment configures\<close>

lemma trending_query_cong:
  "e ''TREND_THRESHOLD'' = e' ''TREND_THRESHOLD'' \<Longrightarrow> trending_query e vs = trending_query e' vs"
  by (simp add: trending_query_def threshold_def)

lemma published_le_10: "length (published s (processTrending io e s)) \<le> 10"
proof -
  have "length (takeWhile (\<lambda>ev. \<not> io ev) (map trending_event (trending_query e (videos s))))
        \<le> length (map trending_event (trending_query e (videos s)))"
    by (rule length_takeWhile_le)
  also have "\<dots> \<le> 10" by (simp add: trending_query_length)
  finally show ?thesis by (simp add: published_def processTrending_sent)
qed

text \<open>
  Claim C8, as the code has it. Only the threshold is configurable: it is 50 when
  \<^verbatim>\<open>TREND_THRESHOLD\<close> is unset and the value of that variable otherwise, and the job and
  the scheduled callback depend on the environment through that variable alone. The size of
  a run's result is capped by the constant 10 whatever the environment holds, and the
  schedule is the constant expression \<^verbatim>\<open>*/2 * * * *\<close>, due on the even minutes.
\<close>

theorem only_threshold_configurable:
  "threshold Map.empty = 50 \<and>
   threshold (e(''TREND_THRESHOLD'' \<mapsto> t)) = t \<and>
   (e ''TREND_THRESHOLD'' = e' ''TREND_THRESHOLD'' \<longrightarrow>
      processTrending io e s = processTrending io e' s \<and> cron_tick e c = cron_tick e' c) \<and>
   length (published s (processTrending io e s)) \<le> 10 \<and>
   cron_expression = ''*/2 * * * *'' \<and> (cron_due minute \<longleftrightarrow> even minute)"
proof -
  have "threshold Map.empty = 50" "threshold (e(''TREND_THRESHOLD'' \<mapsto> t)) = t"
    by (simp_all add: threshold_def)
  moreover have "e ''TREND_THRESHOLD'' = e' ''TREND_THRESHOLD'' \<longrightarrow>
      processTrending io e s = processTrending io e' s \<and> cron_tick e c = cron_tick e' c"
    using trending_query_cong [of e e'] by (simp add: processTrending_def cron_tick_def)
  moreover have "cron_expression = ''*/2 * * * *''" by (simp add: cron_expression_def)
  moreover have "cron_due minute \<longleftrightarrow> even minute" by (simp add: cron_due_def even_iff_mod_2_eq_zero)
  ultimately show ?thesis using published_le_10 [of s io e] by blast
qed

theorem only_threshold_configurable_witness:
  "tuned ''TREND_THRESHOLD'' = [''TREND_THRESHOLD'' \<mapsto> 70] ''TREND_THRESHOLD'' \<and>
   processTrending relay_up tuned twelve_clips =
     processTrending relay_up [''TREND_THRESHOLD'' \<mapsto> 70] twelve_clips \<and>
   threshold (tuned(''TREND_THRESHOLD'' \<mapsto> 60)) = 60"
  using only_threshold_configurable [of tuned 60 "[''TREND_THRESHOLD'' \<mapsto> 70]" relay_up twelve_clips]
  by (simp add: tuned_def)

text \<open>
  Claim C8 as stated fails: with \<open>topN\<close> set to 12 and \<open>interval\<close> to 5 in the
  environment and twelve videos at or above the threshold, a run still publishes 10 events,
  and the job is still due at minute 2 and not at minute 5.
\<close>

theorem configuration_counterexample:
  "tuned ''topN'' = Some 12 \<and> tuned ''interval'' = Some 5 \<and>
   length (filter (gte_likes (threshold tuned)) (videos twelve_clips)) = 12 \<and>
   length (published twelve_clips (processTrending relay_up tuned twelve_clips)) = 10 \<and>
   cron_due 2 \<and> \<not> cron_due 5"
  by (simp add: tuned_def published_def processTrending_sent relay_up_def trending_query_def
      twelve_clips_def empty_server_def clip_def gte_likes_def like_count_def threshold_def cron_due_def)

section \<open>Triggers while a run is in flight\<close>

lemma cron_run_queries:
  "store_queries (cron_run io e c evs) = store_queries c + length (filter (\<lambda>ev. ev = Trigger) evs)"
  unfolding cron_run_def
proof (induction evs arbitrary: c)
  case Nil
  show ?case by simp
next
  case (Cons ev evs)
  show ?case
    by (cases ev) (simp_all add: Cons.IH cron_tick_def query_returns_def split: list.splits)
qed

text \<open>
  Claim C3, as the code has it. The scheduled callback has no guard: every trigger starts a
  run and sends one query to the data store, whether or not earlier runs are still
  suspended, so after any sequence of events the number of queries sent has grown by the
  number of triggers. A trigger that finds no run in flight, followed by the answer of the
  data store, is one run of \<open>processTrending\<close>.
\<close>

theorem every_trigger_starts_a_run:
  "store_queries (cron_tick e c) = Suc (store_queries c) \<and>
   length (awaiting (cron_tick e c)) = Suc (length (awaiting c)) \<and>
   store_queries (cron_run io e c evs) = store_queries c + length (filter (\<lambda>ev. ev = Trigger) evs) \<and>
   srv (query_returns io (cron_tick e (idle s))) =
     processTrending io e (s\<lparr>console := console s @ [Info ''Running trending job...'']\<rparr>)"
  using cron_run_queries [of io e c evs]
  by (simp add: cron_tick_def query_returns_def idle_def processTrending_def)

theorem every_trigger_starts_a_run_witness:
  "store_queries (cron_run relay_up Map.empty (idle four_clips) [Trigger, QueryReturns, Trigger]) = 2"
  using every_trigger_starts_a_run [of Map.empty "idle four_clips" relay_up "[Trigger, QueryReturns, Trigger]"]
  by (simp add: idle_def)

text \<open>
  Claim C3 as stated fails: a second trigger that arrives while the first run is still
  waiting for the data store sends a second query, and two runs are in flight.
\<close>

theorem overlapping_runs_counterexample:
  "awaiting (cron_run relay_up Map.empty (idle four_clips) [Trigger]) \<noteq> [] \<and>
   store_queries (cron_run relay_up Map.empty (idle four_clips) [Trigger]) = 1 \<and>
   store_queries (cron_run relay_up Map.empty (idle four_clips) [Trigger, Trigger]) = 2 \<and>
   length (awaiting (cron_run relay_up Map.empty (idle four_clips) [Trigger, Trigger])) = 2"
  by (simp add: cron_run_def cron_tick_def idle_def)

section \<open>Registering twice\<close>

text \<open>
  Claim C2, as the code has it. The \<open>register\<close> handler only joins rooms: after a
  connected socket registers with one user id and then with another, it is in the personal
  rooms of both ids and in \<open>trending\<close>, beside the rooms it was in before; the two personal
  rooms differ when the ids differ.
\<close>

theorem register_twice_keeps_both:
  assumes "sockets s sid = Some rs"
  shows "sockets (on_register sid u2 (on_register sid u1 s)) sid =
           Some (rs \<union> {''user_'' @ u1, ''user_'' @ u2, ''trending''}) \<and>
         in_room (on_register sid u2 (on_register sid u1 s)) sid (''user_'' @ u1) \<and>
         in_room (on_register sid u2 (on_register sid u1 s)) sid (''user_'' @ u2) \<and>
         in_room (on_register sid u2 (on_register sid u1 s)) sid ''trending'' \<and>
         personal (''user_'' @ u1) \<and> personal (''user_'' @ u2) \<and>
         (u1 \<noteq> u2 \<longrightarrow> ''user_'' @ u1 \<noteq> ''user_'' @ u2)"
  using assms by (auto simp: on_register_def socket_join_def in_room_def personal_def)

theorem register_twice_keeps_both_witness:
  "sockets (on_connection ''s1'' empty_server) ''s1'' = Some {''s1''} \<and>
   sockets (on_register ''s1'' ''bob'' (on_register ''s1'' ''alice'' (on_connection ''s1'' empty_server))) ''s1''
     = Some {''s1'', ''user_alice'', ''user_bob'', ''trending''}"
proof -
  have h: "sockets (on_connection ''s1'' empty_server) ''s1'' = Some {''s1''}"
    by (simp add: on_connection_def)
  from register_twice_keeps_both [OF h, of "''bob''" "''alice''"] h show ?thesis
    by auto
qed

text \<open>
  Claim C2 as stated fails: a socket that registers as \<open>alice\<close> and then as \<open>bob\<close> is
  still in the personal room \<open>user_alice\<close>.
\<close>

theorem register_twice_counterexample:
  "''alice'' \<noteq> ''bob'' \<and> personal ''user_alice'' \<and> ''user_alice'' \<noteq> ''user_bob'' \<and>
   in_room (on_register ''s1'' ''bob'' (on_register ''s1'' ''alice'' (on_connection ''s1'' empty_server)))
     ''s1'' ''user_alice''"
  by (simp add: on_register_def on_connection_def socket_join_def in_room_def personal_def empty_server_def)

section \<open>Disconnecting\<close>

text \<open>
  Claim C6. After a socket registers with a user id and disconnects, it is not a member of
  that user's personal room. A disconnect, with or without an earlier \<open>register\<close> and even
  for a socket the server does not know, leaves the socket in no room and without a record,
  and changes neither the other sockets nor the data store nor the sent events.
\<close>

theorem disconnect_leaves_all_rooms:
  "sid \<notin> membersOf (on_disconnect sid (on_register sid uid s)) (''user_'' @ uid) \<and>
   (\<forall>r. sid \<notin> membersOf (on_disconnect sid s) r) \<and>
   sockets (on_disconnect sid s) sid = None \<and>
   (\<forall>other. other \<noteq> sid \<longrightarrow> sockets (on_disconnect sid s) other = sockets s other) \<and>
   videos (on_disconnect sid s) = videos s \<and> users (on_disconnect sid s) = users s \<and>
   sent (on_disconnect sid s) = sent s"
  by (simp add: membersOf_def in_room_def on_disconnect_def disconnect_handler_def runtime_close_def)

theorem disconnect_leaves_all_rooms_witness:
  "''s2'' \<noteq> ''s1'' \<and>
   ''s1'' \<in> membersOf (on_register ''s1'' ''alice'' (on_connection ''s1'' empty_server)) ''user_alice'' \<and>
   ''s1'' \<notin> membersOf (on_disconnect ''s1'' (on_register ''s1'' ''alice'' (on_connection ''s1'' empty_server))) ''user_alice'' \<and>
   sockets (on_disconnect ''s1'' (on_connection ''s2'' (on_connection ''s1'' empty_server))) ''s2'' = Some {''s2''} \<and>
   sockets (on_disconnect ''s1'' (on_connection ''s2'' (on_connection ''s1'' empty_server))) ''s1'' = None \<and>
   sockets (on_disconnect ''s9'' empty_server) ''s9'' = None"
  using disconnect_leaves_all_rooms [of "''s1''" "''alice''" "on_connection ''s1'' empty_server"]
    disconnect_leaves_all_rooms [of "''s1''" "''alice''" "on_connection ''s2'' (on_connection ''s1'' empty_server)"]
    disconnect_leaves_all_rooms [of "''s9''" "''alice''" empty_server]
  by (simp add: membersOf_def in_room_def on_register_def on_connection_def socket_join_def)

section \<open>Facts about the example ids\<close>

lemma example_ids:
  "hex_id alice_id = Some alice_id" "hex_id bob_id = Some bob_id" "hex_id ghost_id = Some ghost_id"
  "hex_id plain_id = Some plain_id" "hex_id unliked_id = Some unliked_id" "hex_id huge_id = Some huge_id"
  "hex_id ''BBBBBBBBBBBBBBBBBBBBBBB2'' = Some bob_id" "hex_id '''' = None"
  by (simp_all add: hex_id_def hex_digit_def lower_hex_def alice_id_def bob_id_def ghost_id_def
      plain_id_def unliked_id_def huge_id_def)

section \<open>Upload: one event per follower\<close>

lemma alice_upload:
  "req_file (upload_by alice_id) = Some ''f1'' \<and> req_userId (upload_by alice_id) = alice_id \<and>
   users small_site alice_id = Some alice \<and> followers alice = [bob_id, carol_id]"
  by (simp add: upload_by_def small_site_def empty_server_def alice_def member_def
      alice_id_def bob_id_def carol_id_def)

text \<open>
  Claim C5. For an upload with a file whose \<open>userId\<close> is read as the id of a stored user
  with K followers, when no \<^verbatim>\<open>emit\<close> to a follower's room throws, \<open>uploadVideo\<close> sends
  exactly K events, the i-th to the personal room of the i-th follower, each a
  \<open>feed-update-following\<close> event carrying the saved video; the request is answered 200 with
  that video. For K = 0 nothing is sent.
\<close>

theorem upload_notifies_each_follower:
  assumes f: "req_file req = Some filename"
    and c: "cast (req_userId req) = Some owner"
    and u: "users s owner = Some u"
    and ok: "\<forall>x \<in> set (followers u). \<not> io (following_event
               (new_Video fresh (req_title req) (''/uploads/'' @ filename) owner) x)"
  shows "let video = new_Video fresh (req_title req) (''/uploads/'' @ filename) owner;
             s' = fst (uploadVideo cast io fresh req s);
             evs = published s s'
         in length evs = length (followers u) \<and>
            map target evs = map (\<lambda>x. ''user_'' @ x) (followers u) \<and>
            (\<forall>ev \<in> set evs. payload ev = video \<and> kind ev = ''feed-update-following'') \<and>
            snd (uploadVideo cast io fresh req s) = \<lparr>status = 200, json = VideoBody video\<rparr> \<and>
            videos s' = videos s @ [video]"
proof -
  let ?video = "new_Video fresh (req_title req) (''/uploads/'' @ filename) owner"
  have "forEach_emit io (map (following_event ?video) (followers u))
        = (None, map (following_event ?video) (followers u))"
    by (rule forEach_emit_ok) (use ok in auto)
  then have up: "uploadVideo cast io fresh req s =
      (s\<lparr>videos := videos s @ [?video], sent := sent s @ map (following_event ?video) (followers u)\<rparr>,
       \<lparr>status = 200, json = VideoBody ?video\<rparr>)"
    using f c u by (simp add: uploadVideo_def Let_def)
  show ?thesis
    unfolding Let_def up
    by (simp add: published_def following_event_def comp_def)
qed

theorem upload_notifies_each_follower_witness:
  "req_file (upload_by alice_id) = Some ''f1'' \<and>
   hex_id (req_userId (upload_by alice_id)) = Some alice_id \<and>
   users small_site alice_id = Some alice \<and>
   followers alice = [bob_id, carol_id] \<and>
   \<not> relay_up (following_event
       (new_Video ''v9'' (req_title (upload_by alice_id)) (''/uploads/'' @ ''f1'') alice_id) bob_id) \<and>
   \<not> relay_up (following_event
       (new_Video ''v9'' (req_title (upload_by alice_id)) (''/uploads/'' @ ''f1'') alice_id) carol_id) \<and>
   map target (published small_site (fst (uploadVideo hex_id relay_up ''v9'' (upload_by alice_id) small_site)))
     = [''user_'' @ bob_id, ''user_'' @ carol_id]"
proof -
  have f: "req_file (upload_by alice_id) = Some ''f1''"
    and r: "req_userId (upload_by alice_id) = alice_id"
    and u: "users small_site alice_id = Some alice"
    and fs: "followers alice = [bob_id, carol_id]"
    using alice_upload by simp_all
  have c: "hex_id (req_userId (upload_by alice_id)) = Some alice_id"
    by (simp add: r example_ids)
  have ok: "\<forall>x \<in> set (followers alice). \<not> relay_up (following_event
               (new_Video ''v9'' (req_title (upload_by alice_id)) (''/uploads/'' @ ''f1'') alice_id) x)"
    by (simp add: relay_up_def)
  from upload_notifies_each_follower [where cast = hex_id and io = relay_up, OF f c u ok] fs
  have "map target (published small_site (fst (uploadVideo hex_id relay_up ''v9'' (upload_by alice_id) small_site)))
     = [''user_'' @ bob_id, ''user_'' @ carol_id]"
    by (simp add: Let_def)
  with f c u fs show ?thesis by (simp add: relay_up_def)
qed

section \<open>Upload: a failing notification\<close>





section \<open>Liking a video\<close>

lemma findById_in: "findById i vs = Some v \<Longrightarrow> video_id v = i \<and> v \<in> set vs"
  by (induction vs) (auto simp: findById_def split: if_splits)

lemma findById_save_same:
  "findById i vs = Some v \<Longrightarrow> video_id v' = i \<Longrightarrow> findById i (save v' vs) = Some v'"
  by (induction vs) (auto simp: findById_def split: if_splits)

lemma findById_save_other:
  "j \<noteq> video_id v' \<Longrightarrow> findById j (save v' vs) = findById j vs"
  by (induction vs) (auto simp: findById_def)

lemma length_save: "length (save v vs) = length vs"
  by (induction vs) auto

lemma likes_or_0_eq: "likes_or_0 v = like_count v"
  by (simp add: likes_or_0_def like_count_def split: option.splits)

lemma js_add1_exact: "- (2 ^ 53) \<le> n \<Longrightarrow> n < 2 ^ 53 \<Longrightarrow> js_add1 n = n + 1"
  by (simp add: js_add1_def)

lemma js_add1_at_2_53: "js_add1 9007199254740992 = 9007199254740992"
  by (simp add: js_add1_def)

lemma small_site_videos:
  "findById plain_id (videos small_site) = Some (clip plain_id 80)"
  "findById unliked_id (videos small_site) = Some ((clip unliked_id 7)\<lparr>likes := None\<rparr>)"
  "findById huge_id (videos small_site) = Some (clip huge_id 9007199254740992)"
  by (simp_all add: findById_def small_site_def empty_server_def clip_def
      plain_id_def unliked_id_def huge_id_def)

text \<open>
  Claim C9, as the code has it. For an id text read as the id of a stored video,
  \<open>likeVideo\<close> answers 200 with the video whose \<open>likes\<close> is the double sum of the old
  count (a missing \<open>likes\<close> counting as 0) and 1, and whose id, title, url, user and
  comments are unchanged; that video replaces the old one in the store, every other video
  and everything else in the server is unchanged. The new count is the old one plus exactly
  1 whenever the old count is at least \<open>-2^53\<close> and below \<open>2^53\<close>.
\<close>

theorem likeVideo_adds_one_while_exact:
  assumes c: "cast i = Some oid" and v: "findById oid (videos s) = Some v"
  shows "let s' = fst (likeVideo cast i s); v' = v\<lparr>likes := Some (js_add1 (like_count v))\<rparr>
         in snd (likeVideo cast i s) = \<lparr>status = 200, json = VideoBody v'\<rparr> \<and>
            findById oid (videos s') = Some v' \<and>
            (- (2 ^ 53) \<le> like_count v \<and> like_count v < 2 ^ 53 \<longrightarrow>
               like_count v' = like_count v + 1) \<and>
            (likes v = None \<longrightarrow> likes v' = Some 1) \<and>
            video_id v' = video_id v \<and> title v' = title v \<and> url v' = url v \<and>
            user v' = user v \<and> comments v' = comments v \<and>
            (\<forall>j. j \<noteq> oid \<longrightarrow> findById j (videos s') = findById j (videos s)) \<and>
            length (videos s') = length (videos s) \<and>
            users s' = users s \<and> sockets s' = sockets s \<and> sent s' = sent s \<and> console s' = console s"
proof -
  let ?v' = "v\<lparr>likes := Some (js_add1 (like_count v))\<rparr>"
  have lk: "likeVideo cast i s =
      (s\<lparr>videos := save ?v' (videos s)\<rparr>, \<lparr>status = 200, json = VideoBody ?v'\<rparr>)"
    using c v by (simp add: likeVideo_def likes_or_0_eq Let_def)
  have id: "video_id ?v' = oid" using findById_in [OF v] by simp
  have same: "findById oid (save ?v' (videos s)) = Some ?v'"
    using v id by (rule findById_save_same)
  have other: "\<forall>j. j \<noteq> oid \<longrightarrow> findById j (save ?v' (videos s)) = findById j (videos s)"
    using findById_save_other [of _ ?v' "videos s"] id by simp
  have none: "likes v = None \<longrightarrow> likes ?v' = Some 1"
    by (simp add: like_count_def js_add1_def)
  have exact: "- (2 ^ 53) \<le> like_count v \<and> like_count v < 2 ^ 53 \<longrightarrow>
      like_count ?v' = like_count v + 1"
    using js_add1_exact [of "like_count v"] by (simp add: like_count_def)
  show ?thesis
    unfolding Let_def lk using same other none exact
    by (simp add: length_save)
qed

theorem likeVideo_adds_one_while_exact_witness:
  "hex_id unliked_id = Some unliked_id \<and>
   findById unliked_id (videos small_site) = Some ((clip unliked_id 7)\<lparr>likes := None\<rparr>) \<and>
   snd (likeVideo hex_id unliked_id small_site) = \<lparr>status = 200, json = VideoBody (clip unliked_id 1)\<rparr> \<and>
   findById plain_id (videos (fst (likeVideo hex_id unliked_id small_site))) = Some (clip plain_id 80) \<and>
   snd (likeVideo hex_id plain_id small_site) = \<lparr>status = 200, json = VideoBody (clip plain_id 81)\<rparr>"
proof -
  have c: "hex_id unliked_id = Some unliked_id" and c': "hex_id plain_id = Some plain_id"
    using example_ids by simp_all
  have h: "findById unliked_id (videos small_site) = Some ((clip unliked_id 7)\<lparr>likes := None\<rparr>)"
    and a: "findById plain_id (videos small_site) = Some (clip plain_id 80)"
    using small_site_videos by simp_all
  have ne: "plain_id \<noteq> unliked_id" by (simp add: plain_id_def unliked_id_def)
  from likeVideo_adds_one_while_exact [where cast = hex_id, OF c h] a ne
  have 1: "snd (likeVideo hex_id unliked_id small_site) = \<lparr>status = 200, json = VideoBody (clip unliked_id 1)\<rparr> \<and>
   findById plain_id (videos (fst (likeVideo hex_id unliked_id small_site))) = Some (clip plain_id 80)"
    by (simp add: Let_def like_count_def clip_def js_add1_def)
  from likeVideo_adds_one_while_exact [where cast = hex_id, OF c' a]
  have 2: "snd (likeVideo hex_id plain_id small_site) = \<lparr>status = 200, json = VideoBody (clip plain_id 81)\<rparr>"
    by (simp add: Let_def like_count_def clip_def js_add1_def)
  from c h 1 2 show ?thesis by blast
qed

text \<open>
  Claim C9 as stated fails: a stored video with \<open>2^53\<close> likes is answered 200 with the
  same count, and the stored count is unchanged.
\<close>

theorem likeVideo_at_2_53_counterexample:
  "hex_id huge_id = Some huge_id \<and>
   findById huge_id (videos small_site) = Some (clip huge_id 9007199254740992) \<and>
   snd (likeVideo hex_id huge_id small_site) =
     \<lparr>status = 200, json = VideoBody (clip huge_id 9007199254740992)\<rparr> \<and>
   findById huge_id (videos (fst (likeVideo hex_id huge_id small_site))) =
     Some (clip huge_id 9007199254740992)"
proof -
  have c: "hex_id huge_id = Some huge_id" using example_ids by simp
  have v: "findById huge_id (videos small_site) = Some (clip huge_id 9007199254740992)"
    using small_site_videos by simp
  have same: "(clip huge_id 9007199254740992)\<lparr>likes := Some (js_add1 (likes_or_0 (clip huge_id 9007199254740992)))\<rparr>
      = clip huge_id 9007199254740992"
    by (simp add: clip_def likes_or_0_def js_add1_at_2_53)
  have lk: "likeVideo hex_id huge_id small_site =
      (small_site\<lparr>videos := save (clip huge_id 9007199254740992) (videos small_site)\<rparr>,
       \<lparr>status = 200, json = VideoBody (clip huge_id 9007199254740992)\<rparr>)"
    using c v same by (simp add: likeVideo_def Let_def)
  have "findById huge_id (save (clip huge_id 9007199254740992) (videos small_site))
      = Some (clip huge_id 9007199254740992)"
    using v by (rule findById_save_same) (simp add: clip_def)
  with c v lk show ?thesis by simp
qed

section \<open>Following\<close>

text \<open>
  What holds of \<open>follow\<close> for every reading of id texts: a request whose two texts are
  equal is answered 400 and changes nothing; so is, with another error, a request with a
  text that is refused; and \<open>follow\<close> applied twice leaves the server as \<open>follow\<close> applied
  once does.
\<close>

lemma addToSet_idem: "addToSet x (addToSet x xs) = addToSet x xs"
  by (simp add: addToSet_def)

lemma follow_same_text:
  "userId r = targetId r \<Longrightarrow> follow cast r s = (s, \<lparr>status = 400, json = ErrorText ''Invalid''\<rparr>)"
  by (simp add: follow_def)

lemma follow_refused:
  "cast (userId r) = None \<or> cast (targetId r) = None \<Longrightarrow>
   fst (follow cast r s) = s \<and> status (snd (follow cast r s)) = 400"
  by (auto simp: follow_def split: option.splits)

lemma follow_users:
  "userId r \<noteq> targetId r \<Longrightarrow> cast (targetId r) = Some t \<Longrightarrow> cast (userId r) = Some u \<Longrightarrow>
   users (fst (follow cast r s)) = (\<lambda>k.
     if k = u then
       map_option ((\<lambda>d. d\<lparr>following := addToSet t (following d)\<rparr>) \<circ>
                   (\<lambda>d. if u = t then d\<lparr>followers := addToSet u (followers d)\<rparr> else d)) (users s k)
     else if k = t then map_option (\<lambda>d. d\<lparr>followers := addToSet u (followers d)\<rparr>) (users s k)
     else users s k)"
  by (rule ext) (auto simp: follow_def findByIdAndUpdate_def Let_def split: option.splits)

lemma follow_rest:
  "fst (follow cast r s) = s\<lparr>users := users (fst (follow cast r s))\<rparr>"
  by (simp add: follow_def Let_def split: option.splits)

lemma follow_twice: "fst (follow cast r (fst (follow cast r s))) = fst (follow cast r s)"
proof (cases "userId r \<noteq> targetId r \<and> (\<exists>t. cast (targetId r) = Some t) \<and> (\<exists>u. cast (userId r) = Some u)")
  case False
  then have "fst (follow cast r s) = s" for s
    by (auto simp: follow_def split: option.splits)
  then show ?thesis by simp
next
  case True
  then obtain t u where ne: "userId r \<noteq> targetId r"
    and t: "cast (targetId r) = Some t" and u: "cast (userId r) = Some u"
    by blast
  have "users (fst (follow cast r (fst (follow cast r s)))) = users (fst (follow cast r s))"
  proof (rule ext)
    fix k
    show "users (fst (follow cast r (fst (follow cast r s)))) k = users (fst (follow cast r s)) k"
      unfolding follow_users [OF ne t u, of "fst (follow cast r s)"]
      unfolding follow_users [OF ne t u, of s]
      by (cases "users s k") (auto simp: addToSet_idem)
  qed
  moreover have "fst (follow cast r (fst (follow cast r s)))
      = (fst (follow cast r s))\<lparr>users := users (fst (follow cast r (fst (follow cast r s))))\<rparr>"
    by (rule follow_rest)
  ultimately show ?thesis by simp
qed

text \<open>
  Claim C10 says that \<open>follow\<close> rejects a self-follow with an error and modifies no user
  record. The guard of the code compares the two id texts, not the ids: a request that
  spells the id of one stored user in upper case as \<open>userId\<close> and in lower case as
  \<open>targetId\<close> passes the guard, is answered 200, and puts the user's id into the user's
  own \<open>followers\<close> and \<open>following\<close>.
\<close>

theorem follow_stores_respelled_self_follow:
  "userId self_follow \<noteq> targetId self_follow \<and>
   hex_id (userId self_follow) = Some bob_id \<and>
   hex_id (targetId self_follow) = Some bob_id \<and>
   users small_site bob_id = Some member \<and>
   snd (follow hex_id self_follow small_site) = \<lparr>status = 200, json = OkBody\<rparr> \<and>
   users (fst (follow hex_id self_follow small_site)) bob_id =
     Some (member\<lparr>followers := [bob_id], following := [bob_id]\<rparr>)"
proof -
  have ne: "userId self_follow \<noteq> targetId self_follow" by (simp add: self_follow_def)
  have u: "hex_id (userId self_follow) = Some bob_id"
    and t: "hex_id (targetId self_follow) = Some bob_id"
    using example_ids by (simp_all add: self_follow_def bob_id_def)
  have m: "users small_site bob_id = Some member"
    by (simp add: small_site_def empty_server_def alice_id_def bob_id_def carol_id_def)
  have "snd (follow hex_id self_follow small_site) = \<lparr>status = 200, json = OkBody\<rparr>"
    using ne u t by (simp add: follow_def Let_def)
  moreover have "users (fst (follow hex_id self_follow small_site)) bob_id =
     Some (member\<lparr>followers := [bob_id], following := [bob_id]\<rparr>)"
    unfolding follow_users [OF ne t u] using m
    by (simp add: addToSet_def member_def)
  ultimately show ?thesis using ne u t m by blast
qed

end
